theory Spec2Isabelle
  imports Main "HOL-Library.FSet" "HOL-Library.Multiset"
begin

section \<open>Python values used by the Monitor\<close>

text \<open>
  The development embeds the class \<^verbatim>\<open>Monitor\<close> of \<^verbatim>\<open>s_canonize.py\<close>. Python
  integers are \<open>int\<close>, strings are \<open>string\<close> (one \<open>char\<close> per code point), a variable
  that holds \<^verbatim>\<open>None\<close> or a string is a \<open>string option\<close>.

  An exception is either \<^verbatim>\<open>SystemExit\<close> with its code, or an instance of a subclass
  of \<^verbatim>\<open>Exception\<close>, given by the name of its type and by \<^verbatim>\<open>str(e)\<close>. The clause
  \<^verbatim>\<open>except Exception\<close> catches the second kind only.
\<close>

datatype pyexc = SystemExit "int option" | Exc string string

fun is_Exception :: "pyexc \<Rightarrow> bool" where
  "is_Exception (SystemExit c) = False"
| "is_Exception (Exc n m) = True"

fun type_name :: "pyexc \<Rightarrow> string" where
  "type_name (SystemExit c) = ''SystemExit''"
| "type_name (Exc n m) = n"

fun digit_chars :: "nat \<Rightarrow> string" where
  "digit_chars n =
     (if n < 10 then [char_of (48 + n)]
      else digit_chars (n div 10) @ [char_of (48 + n mod 10)])"

declare digit_chars.simps [simp del]

definition str_int :: "int \<Rightarrow> string" where
  "str_int i = (if i < 0 then CHR ''-'' # digit_chars (nat (- i)) else digit_chars (nat i))"

fun str_exc :: "pyexc \<Rightarrow> string" where
  "str_exc (SystemExit None) = ''''"
| "str_exc (SystemExit (Some c)) = str_int c"
| "str_exc (Exc n m) = m"

text \<open>
  \<^verbatim>\<open>traceback.format_exception_only(type(e), e)\<close>: a list of lines, each ending in a
  newline; for an exception without a message the line is the type name alone.
\<close>

definition format_exception_only :: "pyexc \<Rightarrow> string list" where
  "format_exception_only e =
     [type_name e @ (if str_exc e = [] then [] else '': '' @ str_exc e) @ [CHR 0x0A]]"

text \<open>Slices \<^verbatim>\<open>s[i:]\<close> and \<^verbatim>\<open>s[:j]\<close> (a negative bound counts from the end), and
  \<^verbatim>\<open>s * k\<close> (empty for \<open>k \<le> 0\<close>).\<close>

definition py_slice_from :: "'a list \<Rightarrow> int \<Rightarrow> 'a list" where
  "py_slice_from s i = (if i < 0 then drop (nat (int (length s) + i)) s else drop (nat i) s)"

definition py_slice_to :: "'a list \<Rightarrow> int \<Rightarrow> 'a list" where
  "py_slice_to s j = (if j < 0 then take (nat (int (length s) + j)) s else take (nat j) s)"

definition py_str_mul :: "'a list \<Rightarrow> int \<Rightarrow> 'a list" where
  "py_str_mul s k = concat (replicate (nat k) s)"

text \<open>Comparison of strings: lexicographic, by code point.\<close>

fun str_lt :: "string \<Rightarrow> string \<Rightarrow> bool" where
  "str_lt [] [] = False"
| "str_lt [] (b # bs) = True"
| "str_lt (a # as) [] = False"
| "str_lt (a # as) (b # bs) = (if a = b then str_lt as bs else (of_char a :: nat) < of_char b)"

section \<open>Tasks and the priority queue\<close>

text \<open>
  The code numbers of the work queue of the output thread. A task is the tuple that the
  code puts on the queue: \<^verbatim>\<open>(_STATUS, idx, text)\<close>, \<^verbatim>\<open>(_REDRAW,)\<close>,
  \<^verbatim>\<open>(_SUSPEND, sig)\<close>, \<^verbatim>\<open>(_EXIT, sig)\<close>, \<^verbatim>\<open>(_DONE, flag)\<close>. No other tuple is ever
  put, so the final \<^verbatim>\<open>else: raise RuntimeError\<close> of the dispatch has no input in this
  type.
\<close>

definition DONE :: int where "DONE = 4"
definition STATUS :: int where "STATUS = 3"
definition REDRAW :: int where "REDRAW = 2"
definition SUSPEND :: int where "SUSPEND = 1"
definition EXIT :: int where "EXIT = 0"

datatype task = Status nat string | Redraw | Suspend int | Exit int | Done bool

datatype pyval = PInt int | PStr string | PBool bool

fun task_tuple :: "task \<Rightarrow> pyval list" where
  "task_tuple (Status idx text) = [PInt STATUS, PInt (int idx), PStr text]"
| "task_tuple Redraw = [PInt REDRAW]"
| "task_tuple (Suspend sg) = [PInt SUSPEND, PInt sg]"
| "task_tuple (Exit sg) = [PInt EXIT, PInt sg]"
| "task_tuple (Done flag) = [PInt DONE, PBool flag]"

text \<open>
  Python compares tuples lexicographically: the first pair of items that are not \<^verbatim>\<open>==\<close>
  decides by \<^verbatim>\<open><\<close>, and a proper prefix is smaller. \<^verbatim>\<open><\<close> between a string and
  a number raises \<^verbatim>\<open>TypeError\<close> (\<open>None\<close> here); a \<^verbatim>\<open>bool\<close> is the number 0 or 1.
\<close>

fun py_num :: "pyval \<Rightarrow> int option" where
  "py_num (PInt i) = Some i"
| "py_num (PBool b) = Some (if b then 1 else 0)"
| "py_num (PStr s) = None"

fun py_eq :: "pyval \<Rightarrow> pyval \<Rightarrow> bool" where
  "py_eq (PStr a) (PStr b) = (a = b)"
| "py_eq (PStr a) y = False"
| "py_eq x (PStr b) = False"
| "py_eq x y = (py_num x = py_num y)"

fun py_lt :: "pyval \<Rightarrow> pyval \<Rightarrow> bool option" where
  "py_lt (PStr a) (PStr b) = Some (str_lt a b)"
| "py_lt (PStr a) y = None"
| "py_lt x (PStr b) = None"
| "py_lt x y = Some (the (py_num x) < the (py_num y))"

fun tuple_lt :: "pyval list \<Rightarrow> pyval list \<Rightarrow> bool option" where
  "tuple_lt [] [] = Some False"
| "tuple_lt [] (y # ys) = Some True"
| "tuple_lt (x # xs) [] = Some False"
| "tuple_lt (x # xs) (y # ys) = (if py_eq x y then tuple_lt xs ys else py_lt x y)"

definition task_lt :: "task \<Rightarrow> task \<Rightarrow> bool" where
  "task_lt a b \<longleftrightarrow> tuple_lt (task_tuple a) (task_tuple b) = Some True"

text \<open>
  \<^verbatim>\<open>queue.PriorityQueue\<close>: the content is a list of tasks, \<^verbatim>\<open>put\<close> adds one,
  \<^verbatim>\<open>get\<close> removes and returns a smallest one and blocks on an empty queue (\<open>None\<close>).
  Tasks that compare equal are equal, so which of them is returned cannot be observed.
\<close>

definition pq_put :: "task \<Rightarrow> task list \<Rightarrow> task list" where
  "pq_put t q = q @ [t]"

fun pq_min :: "task \<Rightarrow> task list \<Rightarrow> task" where
  "pq_min m [] = m"
| "pq_min m (x # xs) = pq_min (if task_lt x m then x else m) xs"

definition pq_get :: "task list \<Rightarrow> (task \<times> task list) option" where
  "pq_get q = (case q of [] \<Rightarrow> None | x # xs \<Rightarrow> Some (pq_min x xs, remove1 (pq_min x xs) q))"

text \<open>The order in which repeated \<^verbatim>\<open>get\<close> calls deliver the content of a queue
  to which nothing is added meanwhile.\<close>

fun pq_drain :: "nat \<Rightarrow> task list \<Rightarrow> task list" where
  "pq_drain 0 q = []"
| "pq_drain (Suc n) q = (case pq_get q of None \<Rightarrow> [] | Some (t, q') \<Rightarrow> t # pq_drain n q')"

definition delivery_order :: "task list \<Rightarrow> task list" where
  "delivery_order q = pq_drain (length q) q"

text \<open>The priority class of a task is the code number at the head of its tuple.\<close>

fun task_code :: "task \<Rightarrow> int" where
  "task_code (Status idx text) = STATUS"
| "task_code Redraw = REDRAW"
| "task_code (Suspend sg) = SUSPEND"
| "task_code (Exit sg) = EXIT"
| "task_code (Done flag) = DONE"

fun is_Exit :: "task \<Rightarrow> bool" where
  "is_Exit (Exit sg) = True"
| "is_Exit t = False"

fun status_idx :: "task \<Rightarrow> nat option" where
  "status_idx (Status idx text) = Some idx"
| "status_idx t = None"

section \<open>The state of a Monitor\<close>

datatype attr = A_NORMAL | A_BOLD | A_REVERSE

datatype disposition = SIG_DFL | dummy_signal_handler

text \<open>The calls into \<^verbatim>\<open>curses\<close>, \<^verbatim>\<open>signal\<close>, \<^verbatim>\<open>os\<close> and \<^verbatim>\<open>fcntl\<close> that the output
  thread makes are kept as a trace, in the order of the calls.\<close>

datatype call =
    Initscr | Noecho | Nonl | Cbreak | Typeahead int | Curs_set int | Set_nonblock nat
  | Endwin | Clear | Refresh | Clrtoeol
  | Addstr int int string attr
  | Addnstr int int string int attr
  | Ioctl_winsz | Resizeterm int int
  | Signal int disposition | Siginterrupt int bool | Sigmask_unblock int
  | Kill nat int
  | Drain_input nat
  | Set_wakeup_fd | Close_pipe

datatype errline = Text string | Traceback pyexc

record monitor =
  encoding :: "string \<Rightarrow> string"
  pid :: nat
  sigpipe_rd :: nat
  tasks :: "task list"
  stop_event :: bool
  pause_event :: bool
  n_work_threads :: int
  active_work_threads :: int
  worker_exceptions :: "(string \<times> pyexc) list"
  banner :: string
  addmsg :: "string option"
  lines :: "string list"
  line_attrs :: "attr list"
  line_indexes :: "nat \<rightharpoonup> nat"
  line_indexes_used :: "nat fset"
  max_y :: int
  max_x :: int
  trace :: "call list"
  stderr :: "errline list"

section \<open>The banner\<close>

definition compute_banner_internal :: "monitor \<Rightarrow> pyexc + string" where
  "compute_banner_internal self =
     (case addmsg self of
        None \<Rightarrow> Inl (Exc ''TypeError'' ''addmsg is None'')
      | Some a \<Rightarrow>
         (let w = max_x self;
              msg = (if banner self = [] then a else ''. '' @ a);
              n = int (length msg)
          in if n > w then Inr (py_slice_from msg (n - w))
             else if banner self \<noteq> [] \<and> int (length (banner self)) + int (length msg) > w then
               (let n = int (length (banner self)) + int (length msg);
                    shortfall = n - w
                in if length (banner self) \<le> 2 then Inr (py_slice_to (banner self) (- shortfall) @ msg)
                   else if w - int (length msg) \<le> 2
                     then Inr (py_str_mul ''.'' (w - int (length msg)) @ msg)
                   else Inr (py_slice_to (banner self) (- (shortfall + 2)) @ ''..'' @ msg))
             else
               (let n = (if banner self \<noteq> [] then int (length (banner self)) + int (length msg) else n);
                    msg = (if banner self \<noteq> [] then banner self @ msg else msg);
                    space = w - n
                in if space = 0 then Inr msg
                   else if space mod 2 = 0
                     then (let pad = py_str_mul '' '' (space div 2) in Inr (pad @ msg @ pad))
                   else (let pad1 = py_str_mul '' '' (space div 2);
                             pad2 = pad1 @ '' ''
                         in Inr (pad1 @ msg @ pad2)))))"

text \<open>The layout as the specification words it, for a width \<open>W\<close>, a title \<open>T\<close> and a help
  text \<open>H\<close>.\<close>

definition rightmost :: "int \<Rightarrow> string \<Rightarrow> string" where
  "rightmost k s = drop (length s - nat k) s"

definition right_truncate :: "string \<Rightarrow> int \<Rightarrow> string" where
  "right_truncate s k = take (length s - nat k) s"

definition centered :: "int \<Rightarrow> string \<Rightarrow> string" where
  "centered W s =
     (let space = nat (W - int (length s)); left = space div 2
      in replicate left CHR '' '' @ s @ replicate (space - left) CHR '' '')"

definition banner_layout :: "int \<Rightarrow> string \<Rightarrow> string \<Rightarrow> string" where
  "banner_layout W T H =
     (if int (length H) > W then rightmost W H
      else if int (length T) + int (length H) > W then
        (let shortfall = int (length T) + int (length H) - W
         in if length T \<le> 2 then right_truncate T shortfall @ H
            else if W - int (length H) \<le> 2 then replicate (nat (W - int (length H))) CHR ''.'' @ H
            else right_truncate T (shortfall + 2) @ ''..'' @ H)
      else centered W (T @ H))"

definition help_text :: "string \<Rightarrow> string \<Rightarrow> string" where
  "help_text T a = (if T = [] then a else ''. '' @ a)"

section \<open>The worker-facing interface\<close>

text \<open>A method that may raise returns \<open>Inl\<close> of the exception and of the state of the
  Monitor at the moment it is raised, since the object was mutated up to there.\<close>

definition NUL :: string where
  "NUL = [CHR 0x00]"

definition KeyError :: "int \<Rightarrow> pyexc" where
  "KeyError k = Exc ''KeyError'' (str_int k)"

definition IndexError :: pyexc where
  "IndexError = Exc ''IndexError'' ''list index out of range''"

text \<open>\<^verbatim>\<open>report_status\<close>, called on the thread with identifier \<open>tid\<close>
  (\<^verbatim>\<open>threading.get_ident()\<close>).\<close>

definition report_status :: "nat \<Rightarrow> string \<Rightarrow> monitor \<Rightarrow> pyexc \<times> monitor + monitor" where
  "report_status tid status self =
     (case line_indexes self tid of
        None \<Rightarrow> Inl (KeyError (int tid), self)
      | Some idx \<Rightarrow> Inr (self\<lparr>tasks := pq_put (Status idx status) (tasks self)\<rparr>))"

definition caller_is_only_active_thread :: "monitor \<Rightarrow> bool" where
  "caller_is_only_active_thread self \<longleftrightarrow> active_work_threads self = 1"

text \<open>
  \<^verbatim>\<open>maybe_pause_or_stop\<close> up to the point where it returns, raises, or blocks in
  \<^verbatim>\<open>_pause_event.wait()\<close>. Both events are active low: a stop is requested when
  \<open>stop_event\<close> is not set. The second function is what the thread does when the wait
  returns.
\<close>

datatype checkpoint = Passed monitor | Blocked monitor | Raised pyexc monitor

definition maybe_pause_or_stop :: "nat \<Rightarrow> monitor \<Rightarrow> checkpoint" where
  "maybe_pause_or_stop tid self =
     (if \<not> stop_event self then
        (case report_status tid NUL self of
           Inr s \<Rightarrow> Raised (SystemExit None) s
         | Inl (e, s) \<Rightarrow> Raised e s)
      else if \<not> pause_event self then
        (let s1 = self\<lparr>active_work_threads := active_work_threads self - 1\<rparr>;
             s2 = (if active_work_threads s1 = 0
                   then s1\<lparr>tasks := pq_put (Done True) (tasks s1)\<rparr> else s1)
         in case report_status tid NUL s2 of
              Inr s \<Rightarrow> Blocked s
            | Inl (e, s) \<Rightarrow> Raised e s)
      else Passed self)"

definition maybe_pause_or_stop_resume :: "monitor \<Rightarrow> monitor" where
  "maybe_pause_or_stop_resume self = self\<lparr>active_work_threads := active_work_threads self + 1\<rparr>"

section \<open>The life of a worker thread\<close>

record thread =
  ident :: nat
  name :: string

text \<open>The search for the first line index that is not in use.\<close>

function find_free_index :: "nat fset \<Rightarrow> nat \<Rightarrow> nat" where
  "find_free_index used i = (if i |\<notin>| used then i else find_free_index used (i + 1))"
  by pat_completeness auto
termination
proof (relation "measure (\<lambda>(used, i). Suc (fMax used) - i)")
  show "wf (measure (\<lambda>(used, i). Suc (fMax used) - i))" by simp
next
  fix used :: "nat fset" and i :: nat
  assume "\<not> i |\<notin>| used"
  then have "i \<le> fMax used" by simp
  then show "((used, i + 1), (used, i)) \<in> measure (\<lambda>(used, i). Suc (fMax used) - i)"
    by simp
qed

declare find_free_index.simps [simp del]

text \<open>\<^verbatim>\<open>_work_thread_fn\<close> before it calls the worker function.\<close>

definition work_thread_enter :: "thread \<Rightarrow> monitor \<Rightarrow> monitor" where
  "work_thread_enter thread self =
     (let s1 = self\<lparr>n_work_threads := n_work_threads self + 1,
                     active_work_threads := active_work_threads self + 1\<rparr>;
          i = find_free_index (line_indexes_used s1) 0
      in s1\<lparr>line_indexes := (line_indexes s1)(ident thread \<mapsto> i),
             line_indexes_used := finsert i (line_indexes_used s1)\<rparr>)"

text \<open>A dictionary whose keys are iterated is an association list with distinct keys.\<close>

fun dict_set :: "'k \<Rightarrow> 'v \<Rightarrow> ('k \<times> 'v) list \<Rightarrow> ('k \<times> 'v) list" where
  "dict_set k v [] = [(k, v)]"
| "dict_set k v ((k', v') # kvs) = (if k = k' then (k, v) # kvs else (k', v') # dict_set k v kvs)"

text \<open>
  \<^verbatim>\<open>_work_thread_fn\<close> after the worker function: \<open>raised\<close> is the exception with
  which the worker function ended, \<open>None\<close> when it returned. The result holds the
  exception that leaves \<^verbatim>\<open>_work_thread_fn\<close>, \<open>None\<close> when it returns.
\<close>

definition work_thread_except :: "thread \<Rightarrow> pyexc option \<Rightarrow> monitor \<Rightarrow> pyexc option \<times> monitor" where
  "work_thread_except thread raised self =
     (case raised of
        None \<Rightarrow> (None, self)
      | Some e \<Rightarrow>
         (if is_Exception e then
            (let s1 = self\<lparr>worker_exceptions := dict_set (name thread) e (worker_exceptions self)\<rparr>;
                 msg = ''*** Uncaught exception: '' @ py_slice_to (format_exception_only e ! 0) (- 1)
             in case report_status (ident thread) msg s1 of
                  Inr s2 \<Rightarrow> (None, s2)
                | Inl (e', s2) \<Rightarrow> (Some e', s2))
          else (Some e, self)))"

definition work_thread_finally :: "thread \<Rightarrow> pyexc option \<Rightarrow> monitor \<Rightarrow> pyexc option \<times> monitor" where
  "work_thread_finally thread pending self =
     (case line_indexes self (ident thread) of
        None \<Rightarrow> (Some (KeyError (int (ident thread))), self)
      | Some i \<Rightarrow>
         (let s1 = self\<lparr>line_indexes := (line_indexes self)(ident thread := None)\<rparr>
          in if i |\<notin>| line_indexes_used s1 then (Some (KeyError (int i)), s1)
             else
               (let s2 = s1\<lparr>line_indexes_used := line_indexes_used s1 |-| {|i|},
                               n_work_threads := n_work_threads s1 - 1,
                               active_work_threads := active_work_threads s1 - 1\<rparr>
                in (pending,
                    if n_work_threads s2 = 0
                    then s2\<lparr>tasks := pq_put (Done False) (tasks s2)\<rparr> else s2))))"

definition work_thread_exit :: "thread \<Rightarrow> pyexc option \<Rightarrow> monitor \<Rightarrow> pyexc option \<times> monitor" where
  "work_thread_exit thread raised self =
     (case work_thread_except thread raised self of
        (pending, s) \<Rightarrow> work_thread_finally thread pending s)"

section \<open>Signals and the operating system\<close>

text \<open>
  The signal numbers are those of Linux (the tuple \<^verbatim>\<open>_SIGNALS\<close> names \<^verbatim>\<open>SIGPWR\<close>,
  which only Linux has). \<open>SIGNALS\<close> is that tuple: the signals for which the Monitor
  installs its handler, hence the only ones whose numbers arrive on the wakeup pipe.
\<close>

definition SIGHUP :: int where "SIGHUP = 1"
definition SIGINT :: int where "SIGINT = 2"
definition SIGQUIT :: int where "SIGQUIT = 3"
definition SIGKILL :: int where "SIGKILL = 9"
definition SIGUSR1 :: int where "SIGUSR1 = 10"
definition SIGUSR2 :: int where "SIGUSR2 = 12"
definition SIGPIPE :: int where "SIGPIPE = 13"
definition SIGALRM :: int where "SIGALRM = 14"
definition SIGTERM :: int where "SIGTERM = 15"
definition SIGCHLD :: int where "SIGCHLD = 17"
definition SIGCONT :: int where "SIGCONT = 18"
definition SIGSTOP :: int where "SIGSTOP = 19"
definition SIGTSTP :: int where "SIGTSTP = 20"
definition SIGTTIN :: int where "SIGTTIN = 21"
definition SIGTTOU :: int where "SIGTTOU = 22"
definition SIGURG :: int where "SIGURG = 23"
definition SIGXCPU :: int where "SIGXCPU = 24"
definition SIGXFSZ :: int where "SIGXFSZ = 25"
definition SIGVTALRM :: int where "SIGVTALRM = 26"
definition SIGWINCH :: int where "SIGWINCH = 28"
definition SIGPWR :: int where "SIGPWR = 30"
definition NSIG :: int where "NSIG = 65"

definition SIGNALS :: "int list" where
  "SIGNALS = [SIGALRM, SIGHUP, SIGINT, SIGPIPE, SIGPWR, SIGQUIT, SIGTERM, SIGTSTP, SIGTTIN,
              SIGTTOU, SIGUSR1, SIGUSR2, SIGVTALRM, SIGXCPU, SIGXFSZ, SIGWINCH]"

text \<open>The tasks that the input thread puts for a byte read from the keyboard
  (\<open>None\<close> is end of input) and for a byte read from the wakeup pipe.\<close>

definition handle_input_char :: "nat option \<Rightarrow> task list" where
  "handle_input_char ch =
     (if ch = None \<or> ch = Some 0x1B \<or> ch = Some (of_char CHR ''q'') \<or> ch = Some (of_char CHR ''Q'')
      then [Exit 0]
      else if ch = Some 0x0C then [Redraw]
      else [])"

definition handle_signal_char :: "nat \<Rightarrow> task list" where
  "handle_signal_char ch =
     (let sig = int ch
      in if sig = SIGWINCH then [Redraw]
         else if sig = SIGTSTP \<or> sig = SIGTTIN \<or> sig = SIGTTOU then [Suspend sig]
         else [Exit sig])"

text \<open>
  What the operating system answers. The \<open>k\<close>-th window-size query
  (\<^verbatim>\<open>ioctl(0, TIOCGWINSZ)\<close>) returns a height and a width or fails with an
  \<^verbatim>\<open>OSError\<close> of the given message; the \<open>k\<close>-th \<^verbatim>\<open>initscr\<close> finds a window of the
  given size. Other library calls are taken to succeed.
\<close>

record os_env =
  tiocgwinsz :: "nat \<Rightarrow> string + int \<times> int"
  getmaxyx :: "nat \<Rightarrow> int \<times> int"

text \<open>The result of a method of the output thread: it returns, it raises, or the whole
  process is ended by a signal whose disposition is the default one.\<close>

datatype result = Ok monitor | Raise pyexc monitor | Killed int monitor

definition then_do :: "result \<Rightarrow> (monitor \<Rightarrow> result) \<Rightarrow> result" where
  "then_do r f = (case r of Ok s \<Rightarrow> f s | Raise e s \<Rightarrow> Raise e s | Killed sg s \<Rightarrow> Killed sg s)"

definition called :: "call list \<Rightarrow> monitor \<Rightarrow> monitor" where
  "called cs self = self\<lparr>trace := trace self @ cs\<rparr>"

definition signal_signal :: "int \<Rightarrow> disposition \<Rightarrow> monitor \<Rightarrow> result" where
  "signal_signal signo disp self =
     (if signo < 1 \<or> NSIG \<le> signo then Raise (Exc ''ValueError'' ''signal number out of range'') self
      else if signo = SIGKILL \<or> signo = SIGSTOP
        then Raise (Exc ''OSError'' ''[Errno 22] Invalid argument'') self
      else Ok (called [Signal signo disp] self))"

definition siginterrupt :: "int \<Rightarrow> bool \<Rightarrow> monitor \<Rightarrow> result" where
  "siginterrupt signo flag self =
     (if signo < 1 \<or> NSIG \<le> signo then Raise (Exc ''ValueError'' ''signal number out of range'') self
      else if signo = SIGKILL \<or> signo = SIGSTOP
        then Raise (Exc ''OSError'' ''[Errno 22] Invalid argument'') self
      else Ok (called [Siginterrupt signo flag] self))"

definition pthread_sigmask_unblock :: "int \<Rightarrow> monitor \<Rightarrow> result" where
  "pthread_sigmask_unblock signo self =
     (if signo < 1 \<or> NSIG \<le> signo then Raise (Exc ''ValueError'' ''signal number out of range'') self
      else Ok (called [Sigmask_unblock signo] self))"

text \<open>
  \<^verbatim>\<open>os.kill(self._pid, signo)\<close>. Both callers have just installed \<^verbatim>\<open>SIG_DFL\<close> for
  \<open>signo\<close>, so the signal has its default action: it ends the process, or stops it until
  it is continued, or is discarded. Signal 0 is not delivered at all.
\<close>

datatype action = Terminate | Stop | Ignore

definition default_action :: "int \<Rightarrow> action" where
  "default_action signo =
     (if signo = SIGSTOP \<or> signo = SIGTSTP \<or> signo = SIGTTIN \<or> signo = SIGTTOU then Stop
      else if signo = SIGCHLD \<or> signo = SIGCONT \<or> signo = SIGURG \<or> signo = SIGWINCH then Ignore
      else Terminate)"

definition os_kill :: "int \<Rightarrow> monitor \<Rightarrow> result" where
  "os_kill signo self =
     (if signo < 0 \<or> NSIG \<le> signo then Raise (Exc ''OSError'' ''[Errno 22] Invalid argument'') self
      else if signo \<noteq> 0 \<and> default_action signo = Terminate
        then Killed signo (called [Kill (pid self) signo] self)
      else Ok (called [Kill (pid self) signo] self))"

section \<open>The output thread\<close>

definition initscr_plus :: "os_env \<Rightarrow> monitor \<Rightarrow> monitor" where
  "initscr_plus os self =
     (case getmaxyx os (count_list (trace self) Initscr) of
        (y, x) \<Rightarrow>
          called [Initscr, Noecho, Nonl, Cbreak, Typeahead (- 1), Curs_set 0, Set_nonblock 0]
            (self\<lparr>max_y := y, max_x := x\<rparr>))"

definition compute_banner :: "monitor \<Rightarrow> pyexc + string" where
  "compute_banner self =
     (case compute_banner_internal self of Inl e \<Rightarrow> Inl e | Inr b \<Rightarrow> Inr (encoding self b))"

text \<open>The loop at the head of \<^verbatim>\<open>_do_status\<close> that grows the line table.\<close>

function grow_lines :: "nat \<Rightarrow> monitor \<Rightarrow> monitor" where
  "grow_lines idx self =
     (if idx \<ge> length (lines self)
      then grow_lines idx (self\<lparr>lines := lines self @ [[]],
                                  line_attrs := line_attrs self @ [A_NORMAL]\<rparr>)
      else self)"
  by pat_completeness auto
termination
  by (relation "measure (\<lambda>(idx, self). Suc idx - length (lines self))") auto

declare grow_lines.simps [simp del]

definition do_status :: "nat \<Rightarrow> string \<Rightarrow> monitor \<Rightarrow> result" where
  "do_status idx text self =
     (let s1 = grow_lines idx self
      in if text = NUL \<and> \<not> idx < length (line_attrs s1) then Raise IndexError s1
         else
           (let s2 = (if text = NUL then s1\<lparr>line_attrs := (line_attrs s1)[idx := A_NORMAL]\<rparr>
                      else s1\<lparr>lines := (lines s1)[idx := encoding s1 text]\<rparr>);
                y = (max_y s2 - 1) - int idx
            in if y < 1 then Ok s2
               else if \<not> idx < length (line_attrs s2) then Raise IndexError s2
               else Ok (called [Addnstr y 0 (lines s2 ! idx) (max_x s2 - 1) (line_attrs s2 ! idx),
                                Clrtoeol, Refresh] s2)))"

text \<open>The loop over the rows in \<^verbatim>\<open>_do_redraw\<close>, for the rows \<open>ys\<close> that remain.\<close>

fun redraw_rows :: "int list \<Rightarrow> monitor \<Rightarrow> result" where
  "redraw_rows [] self = Ok self"
| "redraw_rows (y # ys) self =
     (let idx = (max_y self - 1) - y
      in if idx < int (length (lines self)) then
           (if \<not> nat idx < length (line_attrs self) then Raise IndexError self
            else redraw_rows ys
                   (called [Addnstr y 0 (lines self ! nat idx) (max_x self - 1)
                              (line_attrs self ! nat idx)] self))
         else redraw_rows ys self)"

definition do_redraw :: "os_env \<Rightarrow> monitor \<Rightarrow> result" where
  "do_redraw os self =
     (case tiocgwinsz os (count_list (trace self) Ioctl_winsz) of
        Inl msg \<Rightarrow> Raise (Exc ''OSError'' msg) (called [Ioctl_winsz] self)
      | Inr (height, width) \<Rightarrow>
         (let s1 = called [Ioctl_winsz, Resizeterm height width, Clear]
                     (self\<lparr>max_y := height, max_x := width\<rparr>)
          in case compute_banner s1 of
               Inl e \<Rightarrow> Raise e s1
             | Inr b \<Rightarrow>
                 then_do (redraw_rows [1 .. max_y s1 - 1] (called [Addstr 0 0 b A_REVERSE] s1))
                   (\<lambda>s2. Ok (called [Refresh] s2))))"

definition flag_all_lines :: "os_env \<Rightarrow> monitor \<Rightarrow> result" where
  "flag_all_lines os self = do_redraw os (self\<lparr>line_attrs := map (\<lambda>a. A_BOLD) (line_attrs self)\<rparr>)"

definition do_suspend :: "os_env \<Rightarrow> int \<Rightarrow> string option \<Rightarrow> monitor \<Rightarrow> result" where
  "do_suspend os signo old_addmsg self =
     then_do (signal_signal signo SIG_DFL (called [Endwin] self)) (\<lambda>s1.
     then_do (os_kill signo s1) (\<lambda>s2.
     then_do (signal_signal signo dummy_signal_handler s2) (\<lambda>s3.
     then_do (siginterrupt signo False s3) (\<lambda>s4.
       (let s5 = initscr_plus os s4;
            s6 = called [Drain_input 0, Drain_input (sigpipe_rd s5)] s5;
            s7 = s6\<lparr>pause_event := True, addmsg := old_addmsg\<rparr>
        in do_redraw os s7)))))"

definition do_exit :: "int \<Rightarrow> monitor \<Rightarrow> result" where
  "do_exit signo self =
     (if signo = 0 \<or> signo = SIGINT then Ok self
      else
        then_do (pthread_sigmask_unblock signo (called [Endwin] self)) (\<lambda>s1.
        then_do (signal_signal signo SIG_DFL s1) (\<lambda>s2.
        os_kill signo s2)))"

text \<open>
  The local variables of \<^verbatim>\<open>_output_thread_fn\<close>, and one pass through the body of its
  \<^verbatim>\<open>try\<close> statement for the task that \<^verbatim>\<open>get\<close> returned: the loop goes on, the
  function returns, an exception reaches the \<^verbatim>\<open>except\<close> clause, or the process is gone.
\<close>

record frame =
  old_addmsg :: "string option"
  exit_signal :: int

datatype step = Next frame monitor | Return monitor | Fault pyexc frame monitor | Dead int monitor

definition continue :: "frame \<Rightarrow> result \<Rightarrow> step" where
  "continue fr r = (case r of Ok s \<Rightarrow> Next fr s | Raise e s \<Rightarrow> Fault e fr s | Killed sg s \<Rightarrow> Dead sg s)"

fun try_body :: "os_env \<Rightarrow> task \<Rightarrow> frame \<Rightarrow> monitor \<Rightarrow> step" where
  "try_body os (Status idx text) fr self = continue fr (do_status idx text self)"
| "try_body os Redraw fr self = continue fr (do_redraw os self)"
| "try_body os (Suspend sg) fr self =
     (let fr1 = fr\<lparr>exit_signal := sg\<rparr>;
          s1 = self\<lparr>pause_event := False\<rparr>;
          fr2 = fr1\<lparr>old_addmsg := addmsg s1\<rparr>;
          s2 = s1\<lparr>addmsg := Some ''Pausing.''\<rparr>
      in continue fr2 (flag_all_lines os s2))"
| "try_body os (Exit sg) fr self =
     (let fr1 = fr\<lparr>exit_signal := sg\<rparr>;
          s1 = self\<lparr>stop_event := False\<rparr>;
          s2 = (if exit_signal fr1 \<noteq> 0
                then s1\<lparr>addmsg := Some (''Shutting down (signal '' @ str_int (exit_signal fr1) @ '').'')\<rparr>
                else s1\<lparr>addmsg := Some ''Shutting down.''\<rparr>)
      in continue fr1 (flag_all_lines os s2))"
| "try_body os (Done flag) fr self =
     (if flag then
        (case do_suspend os (exit_signal fr) (old_addmsg fr) self of
           Ok s \<Rightarrow> Next (fr\<lparr>exit_signal := 0, old_addmsg := None\<rparr>) s
         | Raise e s \<Rightarrow> Fault e fr s
         | Killed sg s \<Rightarrow> Dead sg s)
      else
        (case do_exit (exit_signal fr) self of
           Ok s \<Rightarrow> Return s
         | Raise e s \<Rightarrow> Fault e fr s
         | Killed sg s \<Rightarrow> Dead sg s))"

text \<open>
  The \<^verbatim>\<open>while True\<close> loop, over the tasks that the successive calls of \<^verbatim>\<open>get\<close>
  return. When they are used up the thread waits in \<^verbatim>\<open>get\<close>. The \<^verbatim>\<open>except\<close> clause
  re-raises when a stop is requested; otherwise it requests the stop, sets the message and
  redraws, outside of any \<^verbatim>\<open>try\<close>.
\<close>

datatype run = Returned monitor | Propagated pyexc monitor | ProcessKilled int monitor
  | Waiting frame monitor

definition crashing :: "pyexc \<Rightarrow> string" where
  "crashing e = ''*** '' @ type_name e @ '':'' @ str_exc e @ '' *** Crashing.''"

definition except_clause :: "os_env \<Rightarrow> pyexc \<Rightarrow> monitor \<Rightarrow> result" where
  "except_clause os e self =
     (if \<not> stop_event self then Raise e self
      else do_redraw os (self\<lparr>stop_event := False, addmsg := Some (crashing e)\<rparr>))"

fun output_loop :: "os_env \<Rightarrow> task list \<Rightarrow> frame \<Rightarrow> monitor \<Rightarrow> run" where
  "output_loop os [] fr self = Waiting fr self"
| "output_loop os (t # ts) fr self =
     (case try_body os t fr self of
        Next fr' s \<Rightarrow> output_loop os ts fr' s
      | Return s \<Rightarrow> Returned s
      | Dead sg s \<Rightarrow> ProcessKilled sg s
      | Fault e fr' s \<Rightarrow>
          (case except_clause os e s of
             Ok s' \<Rightarrow> output_loop os ts fr' s'
           | Raise e' s' \<Rightarrow> Propagated e' s'
           | Killed sg s' \<Rightarrow> ProcessKilled sg s'))"

definition output_thread_fn :: "os_env \<Rightarrow> task list \<Rightarrow> monitor \<Rightarrow> run" where
  "output_thread_fn os ts self =
     (let s1 = called [Clear] self
      in case compute_banner s1 of
           Inl e \<Rightarrow> Propagated e s1
         | Inr b \<Rightarrow>
             output_loop os ts \<lparr>old_addmsg = None, exit_signal = 0\<rparr>
               (called [Addstr 0 0 b A_REVERSE, Refresh] s1))"

section \<open>The end of the run\<close>

fun insort_str :: "string \<Rightarrow> string list \<Rightarrow> string list" where
  "insort_str x [] = [x]"
| "insort_str x (y # ys) = (if str_lt y x then y # insort_str x ys else x # y # ys)"

definition py_sorted :: "string list \<Rightarrow> string list" where
  "py_sorted ks = foldr insort_str ks []"

definition report_of :: "(string \<times> pyexc) list \<Rightarrow> string \<Rightarrow> errline list" where
  "report_of excs tid =
     (case map_of excs tid of
        None \<Rightarrow> []
      | Some e \<Rightarrow> [Text (''Exception in thread '' @ tid @ '':'' @ [CHR 0x0A]), Traceback e,
                   Text [CHR 0x0A]])"

text \<open>
  The \<^verbatim>\<open>finally\<close> clause of \<^verbatim>\<open>Monitor.__init__\<close>: \<open>inflight\<close> is the exception
  that left the \<^verbatim>\<open>try\<close> suite, \<open>None\<close> when the output thread returned
  (\<^verbatim>\<open>sys.exc_info() == (None, None, None)\<close>). The result holds the exception that leaves
  \<^verbatim>\<open>__init__\<close>.
\<close>

definition monitor_finally :: "pyexc option \<Rightarrow> monitor \<Rightarrow> pyexc option \<times> monitor" where
  "monitor_finally inflight self =
     (let s1 = called [Endwin, Set_wakeup_fd, Close_pipe, Close_pipe] self
      in if worker_exceptions s1 \<noteq> [] then
           (let s2 = s1\<lparr>stderr := stderr s1 @
                        concat (map (report_of (worker_exceptions s1))
                                  (py_sorted (map fst (worker_exceptions s1))))\<rparr>
            in if inflight = None then (Some (SystemExit (Some 1)), s2) else (inflight, s2))
         else (inflight, s1))"

text \<open>
  The exit status of the interpreter when the main thread ends with the given exception:
  0 for none and for \<^verbatim>\<open>SystemExit\<close> without a code, the code of a \<^verbatim>\<open>SystemExit\<close>, and 1 for
  any other exception, which is printed and ends the program.
\<close>

fun exit_status :: "pyexc option \<Rightarrow> int" where
  "exit_status None = 0"
| "exit_status (Some (SystemExit None)) = 0"
| "exit_status (Some (SystemExit (Some c))) = c"
| "exit_status (Some (Exc n m)) = 1"

text \<open>
  \<^verbatim>\<open>Monitor.__init__\<close> from the call of \<^verbatim>\<open>_output_thread_fn\<close> on, called at the top
  level of the program: the process exits with a status, or has been ended by a signal, or
  the output thread waits for a task for ever. The fault table of the state stands for the
  table as the workers have left it when the output thread ends.
\<close>

datatype ending = Exited int monitor | KilledBySignal int monitor | Hung monitor

definition monitor_run :: "os_env \<Rightarrow> task list \<Rightarrow> monitor \<Rightarrow> ending" where
  "monitor_run os ts self =
     (case output_thread_fn os ts self of
        Returned s \<Rightarrow> (case monitor_finally None s of (e, s') \<Rightarrow> Exited (exit_status e) s')
      | Propagated e s \<Rightarrow> (case monitor_finally (Some e) s of (e', s') \<Rightarrow> Exited (exit_status e') s')
      | ProcessKilled sg s \<Rightarrow> KilledBySignal sg s
      | Waiting fr s \<Rightarrow> Hung s)"

section \<open>Runs of the worker threads\<close>

text \<open>The state in which a call of \<^verbatim>\<open>maybe_pause_or_stop\<close> leaves the Monitor, and the
  state after each thread of a list, in turn, has called it.\<close>

fun checkpoint_state :: "checkpoint \<Rightarrow> monitor" where
  "checkpoint_state (Passed s) = s"
| "checkpoint_state (Blocked s) = s"
| "checkpoint_state (Raised e s) = s"

fun is_Blocked :: "checkpoint \<Rightarrow> bool" where
  "is_Blocked (Blocked s) = True"
| "is_Blocked c = False"

fun reach_checkpoint :: "nat list \<Rightarrow> monitor \<Rightarrow> monitor" where
  "reach_checkpoint [] s = s"
| "reach_checkpoint (tid # tids) s = reach_checkpoint tids (checkpoint_state (maybe_pause_or_stop tid s))"

text \<open>
  The calls that worker threads make into the Monitor, one event per call, in the order in
  which they take effect on the shared state. A thread enters \<^verbatim>\<open>_work_thread_fn\<close> only
  while no live thread has its identifier, and leaves it only after it has entered.
\<close>

datatype event =
    Enter thread
  | Leave thread "pyexc option"
  | Report nat string
  | Checkpoint nat
  | Resume

fun apply_event :: "event \<Rightarrow> monitor \<Rightarrow> monitor option" where
  "apply_event (Enter th) s =
     (if line_indexes s (ident th) = None then Some (work_thread_enter th s) else None)"
| "apply_event (Leave th r) s =
     (if line_indexes s (ident th) = None then None else Some (snd (work_thread_exit th r s)))"
| "apply_event (Report tid text) s =
     (case report_status tid text s of Inl (e, s') \<Rightarrow> Some s' | Inr s' \<Rightarrow> Some s')"
| "apply_event (Checkpoint tid) s = Some (checkpoint_state (maybe_pause_or_stop tid s))"
| "apply_event Resume s = Some (maybe_pause_or_stop_resume s)"

fun run_events :: "event list \<Rightarrow> monitor \<Rightarrow> monitor option" where
  "run_events [] s = Some s"
| "run_events (e # es) s = (case apply_event e s of None \<Rightarrow> None | Some s' \<Rightarrow> run_events es s')"

text \<open>The state in which \<^verbatim>\<open>Monitor.__init__\<close> starts its threads.\<close>

definition init_monitor :: "string \<Rightarrow> int \<Rightarrow> int \<Rightarrow> monitor" where
  "init_monitor b y x =
     \<lparr>encoding = (\<lambda>t. t), pid = 1, sigpipe_rd = 3, tasks = [],
      stop_event = True, pause_event = True,
      n_work_threads = 0, active_work_threads = 0, worker_exceptions = [],
      banner = b, addmsg = Some ''Press ESC to stop.'',
      lines = [], line_attrs = [], line_indexes = Map.empty, line_indexes_used = {||},
      max_y = y, max_x = x,
      trace = [Initscr, Noecho, Nonl, Cbreak, Typeahead (- 1), Curs_set 0, Set_nonblock 0],
      stderr = []\<rparr>"

text \<open>The line indexes in use are those of the live workers, one worker per index.\<close>

definition index_inv :: "monitor \<Rightarrow> bool" where
  "index_inv s \<longleftrightarrow>
     (\<forall>t1 t2 i. line_indexes s t1 = Some i \<and> line_indexes s t2 = Some i \<longrightarrow> t1 = t2)
     \<and> (\<forall>i. i |\<in>| line_indexes_used s \<longleftrightarrow> (\<exists>t. line_indexes s t = Some i))"

section \<open>Concrete inputs\<close>

text \<open>States and queues at which the theorems below are evaluated.\<close>

definition q0 :: "task list" where
  "q0 = [Status 1 ''b'', Redraw, Exit 15, Suspend 20, Status 0 ''a'', Done True]"

definition paused3 :: monitor where
  "paused3 = (init_monitor ''Canonicalizing URLs'' 24 80)
     \<lparr>pause_event := False, n_work_threads := 3, active_work_threads := 3,
      line_indexes := [10 \<mapsto> 0, 11 \<mapsto> 1, 12 \<mapsto> 2],
      line_indexes_used := {|0, 1, 2|}\<rparr>"

definition th10 :: thread where "th10 = \<lparr>ident = 10, name = ''Thread-1''\<rparr>"
definition th11 :: thread where "th11 = \<lparr>ident = 11, name = ''Thread-2''\<rparr>"
definition th12 :: thread where "th12 = \<lparr>ident = 12, name = ''Thread-3''\<rparr>"

definition two_workers :: monitor where
  "two_workers = work_thread_enter th11 (work_thread_enter th10 (init_monitor ''Canonicalizing URLs'' 24 80))"

section \<open>The banner layout\<close>

lemma concat_replicate_single: "concat (replicate k [c]) = replicate k c"
  by (induction k) auto

lemma slice_from_rightmost:
  "W < int (length s) \<Longrightarrow> py_slice_from s (int (length s) - W) = rightmost W s"
  by (cases "W < 0") (auto simp: py_slice_from_def rightmost_def nat_diff_distrib)

lemma slice_to_right_truncate:
  assumes "j < 0" and "k = - j"
  shows "py_slice_to s j = right_truncate s k"
proof -
  from assms have "nat (int (length s) + j) = length s - nat k" by arith
  with assms show ?thesis by (simp add: py_slice_to_def right_truncate_def)
qed

lemma centered_even:
  assumes "int (length s) \<le> W" and "(W - int (length s)) mod 2 = 0"
  shows "centered W s = replicate (nat ((W - int (length s)) div 2)) CHR '' '' @ s
           @ replicate (nat ((W - int (length s)) div 2)) CHR '' ''"
proof -
  have "0 \<le> (W - int (length s)) div 2" using assms by simp
  then obtain k :: nat where k0: "(W - int (length s)) div 2 = int k"
    using nonneg_int_cases by blast
  with assms have k: "W - int (length s) = 2 * int k"
    by (metis mult_div_mod_eq add.right_neutral)
  have "nat (2 * int k) = 2 * k" by simp
  then show ?thesis using k by (simp add: centered_def Let_def)
qed

lemma centered_odd:
  assumes "int (length s) \<le> W" and "(W - int (length s)) mod 2 = 1"
  shows "centered W s = replicate (nat ((W - int (length s)) div 2)) CHR '' '' @ s
           @ replicate (nat ((W - int (length s)) div 2)) CHR '' '' @ '' ''"
proof -
  have "0 \<le> (W - int (length s)) div 2" using assms by simp
  then obtain k :: nat where k0: "(W - int (length s)) div 2 = int k"
    using nonneg_int_cases by blast
  with assms have k: "W - int (length s) = 2 * int k + 1"
    by (metis mult_div_mod_eq)
  have "nat (2 * int k + 1) = 2 * k + 1" by simp
  then show ?thesis using k
    by (simp add: centered_def Let_def replicate_append_same)
qed

lemma compute_banner_internal_layout:
  "compute_banner_internal (self\<lparr>banner := T, max_x := W, addmsg := Some a\<rparr>)
     = Inr (banner_layout W T (help_text T a))"
proof -
  let ?H = "help_text T a"
  consider (wide) "W < int (length ?H)"
    | (trim) "int (length ?H) \<le> W" "W < int (length T) + int (length ?H)"
    | (fits) "int (length T) + int (length ?H) \<le> W"
    by linarith
  then show ?thesis
  proof cases
    case wide
    then show ?thesis
      by (simp add: compute_banner_internal_def banner_layout_def help_text_def Let_def
          slice_from_rightmost)
  next
    case trim
    then have T: "T \<noteq> []" by auto
    from trim T show ?thesis
      by (auto simp: compute_banner_internal_def banner_layout_def help_text_def Let_def
          py_str_mul_def concat_replicate_single intro!: slice_to_right_truncate)
  next
    case fits
    then have H: "int (length ?H) \<le> W" by simp
    from fits have le: "int (length (T @ ?H)) \<le> W" by simp
    show ?thesis
    proof (cases "(W - int (length (T @ ?H))) mod 2 = 0")
      case True
      from centered_even [OF le True] fits H True show ?thesis
        by (auto simp: compute_banner_internal_def banner_layout_def help_text_def Let_def
          py_str_mul_def concat_replicate_single centered_def)
    next
      case False
      then have odd: "(W - int (length (T @ ?H))) mod 2 = 1" by presburger
      from centered_odd [OF le odd] fits H odd show ?thesis
        by (auto simp: compute_banner_internal_def banner_layout_def help_text_def Let_def
          py_str_mul_def concat_replicate_single)
    qed
  qed
qed

text \<open>
  Claim C5. For every width \<open>W\<close>, title \<open>T\<close> and message \<open>a\<close>, with the help text \<open>H\<close>
  being \<open>a\<close> for an empty title and \<open>a\<close> after the separator \<open>''. ''\<close> otherwise, the banner
  that the code computes is the layout of the specification: the rightmost \<open>W\<close> characters
  of \<open>H\<close> when \<open>H\<close> is longer than \<open>W\<close>; else, when \<open>T\<close> and \<open>H\<close> together are longer than
  \<open>W\<close>, the title cut at the right by the shortfall and \<open>H\<close> for a title of at most two
  characters, or \<open>W - len(H)\<close> dots and \<open>H\<close> when \<open>W - len(H) \<le> 2\<close>, or the title cut by the
  shortfall plus two, two dots and \<open>H\<close>; else \<open>T\<close> and \<open>H\<close> centered, the smaller half of an
  odd padding on the left. For width 40, the title \<open>Canonicalizing URLs\<close> and the help
  text \<open>. Press ESC to stop.\<close> the result has 40 characters: the 39 of the text and one
  space on the right.
\<close>

theorem banner_layout_as_specified:
  "compute_banner_internal (self\<lparr>banner := T, max_x := W, addmsg := Some a\<rparr>)
     = Inr (banner_layout W T (help_text T a))
   \<and> compute_banner_internal
       (self\<lparr>banner := ''Canonicalizing URLs'', max_x := 40, addmsg := Some ''Press ESC to stop.''\<rparr>)
     = Inr (''Canonicalizing URLs. Press ESC to stop. '')
   \<and> help_text ''Canonicalizing URLs'' ''Press ESC to stop.'' = ''. Press ESC to stop.''
   \<and> length (banner_layout 40 ''Canonicalizing URLs'' ''. Press ESC to stop.'') = 40"
proof (intro conjI)
  show "compute_banner_internal (self\<lparr>banner := T, max_x := W, addmsg := Some a\<rparr>)
     = Inr (banner_layout W T (help_text T a))"
    by (rule compute_banner_internal_layout)
  show "compute_banner_internal
       (self\<lparr>banner := ''Canonicalizing URLs'', max_x := 40, addmsg := Some ''Press ESC to stop.''\<rparr>)
     = Inr (''Canonicalizing URLs. Press ESC to stop. '')"
    by (simp add: compute_banner_internal_def Let_def py_str_mul_def)
  show "help_text ''Canonicalizing URLs'' ''Press ESC to stop.'' = ''. Press ESC to stop.''"
    by (simp add: help_text_def)
  show "length (banner_layout 40 ''Canonicalizing URLs'' ''. Press ESC to stop.'') = 40"
    by (simp add: banner_layout_def centered_def Let_def)
qed

section \<open>Delivery by priority\<close>

lemmas code_defs = DONE_def STATUS_def REDRAW_def SUSPEND_def EXIT_def

lemma str_lt_irrefl: "\<not> str_lt a a"
  by (induction a) auto

lemma str_lt_trans: "str_lt a b \<Longrightarrow> str_lt b c \<Longrightarrow> str_lt a c"
proof (induction a b arbitrary: c rule: str_lt.induct)
  case (4 a as b bs)
  then show ?case by (cases c) (auto split: if_splits)
next
  case (2 b bs)
  then show ?case by (cases c) auto
qed auto

lemma of_char_nat_cases: "a \<noteq> b \<Longrightarrow> (of_char a :: nat) < of_char b \<or> (of_char b :: nat) < of_char a"
proof -
  assume "a \<noteq> b"
  then have "(of_char a :: nat) \<noteq> of_char b" by simp
  then show ?thesis by linarith
qed

lemma str_lt_total: "a \<noteq> b \<Longrightarrow> str_lt a b \<or> str_lt b a"
  by (induction a b rule: str_lt.induct) (auto dest: of_char_nat_cases)

lemma tuple_lt_defined: "tuple_lt (task_tuple a) (task_tuple b) \<noteq> None"
  by (cases a; cases b) (auto simp: code_defs)

lemma task_lt_irrefl: "\<not> task_lt a a"
  by (cases a) (auto simp: task_lt_def code_defs str_lt_irrefl)

lemma str_lt_asym: "str_lt a b \<Longrightarrow> str_lt b a \<Longrightarrow> False"
  using str_lt_trans str_lt_irrefl by blast

lemma task_lt_trans: "task_lt a b \<Longrightarrow> task_lt b c \<Longrightarrow> task_lt a c"
  by (cases a; cases b; cases c)
     (auto simp: task_lt_def code_defs split: if_splits dest: str_lt_trans str_lt_asym)

lemma task_lt_total: "a \<noteq> b \<Longrightarrow> task_lt a b \<or> task_lt b a"
  using str_lt_total
  by (cases a; cases b) (auto simp: task_lt_def code_defs split: if_splits)

lemma task_le_trans: "\<not> task_lt b a \<Longrightarrow> \<not> task_lt c b \<Longrightarrow> \<not> task_lt c a"
  by (metis task_lt_total task_lt_trans)

lemma task_lt_code: "task_code a < task_code b \<Longrightarrow> task_lt a b"
  by (cases a; cases b) (auto simp: task_lt_def code_defs)

lemma task_lt_code_le: "task_lt a b \<Longrightarrow> task_code a \<le> task_code b"
  by (cases a; cases b) (auto simp: task_lt_def code_defs split: if_splits)

lemma pq_min_in: "pq_min m xs \<in> set (m # xs)"
  by (induction xs arbitrary: m) auto

lemma pq_min_le_start: "\<not> task_lt m (pq_min m xs)"
proof (induction xs arbitrary: m)
  case Nil show ?case by (simp add: task_lt_irrefl)
next
  case (Cons x xs)
  show ?case
  proof (cases "task_lt x m")
    case True
    have "\<not> task_lt x (pq_min x xs)" by (rule Cons.IH)
    moreover have "\<not> task_lt m x" using True task_lt_irrefl task_lt_trans by blast
    ultimately have "\<not> task_lt m (pq_min x xs)" using task_le_trans by blast
    with True show ?thesis by simp
  next
    case False
    then show ?thesis using Cons.IH by simp
  qed
qed

lemma pq_min_least: "u \<in> set (m # xs) \<Longrightarrow> \<not> task_lt u (pq_min m xs)"
proof (induction xs arbitrary: m)
  case Nil then show ?case by (simp add: task_lt_irrefl)
next
  case (Cons x xs)
  let ?m' = "if task_lt x m then x else m"
  have step: "pq_min m (x # xs) = pq_min ?m' xs" by simp
  from Cons.prems consider "u = m" | "u = x" | "u \<in> set xs" by auto
  then show ?case
  proof cases
    case 1
    have "\<not> task_lt m ?m'" using task_lt_irrefl task_lt_trans by (cases "task_lt x m") auto
    moreover have "\<not> task_lt ?m' (pq_min ?m' xs)" by (rule pq_min_le_start)
    ultimately show ?thesis unfolding step 1 using task_le_trans by blast
  next
    case 2
    have "\<not> task_lt x ?m'" using task_lt_irrefl by (cases "task_lt x m") auto
    moreover have "\<not> task_lt ?m' (pq_min ?m' xs)" by (rule pq_min_le_start)
    ultimately show ?thesis unfolding step 2 using task_le_trans by blast
  next
    case 3
    then have "u \<in> set (?m' # xs)" by simp
    then show ?thesis unfolding step by (rule Cons.IH)
  qed
qed

lemma pq_get_Some:
  assumes "pq_get q = Some (t, q')"
  shows "t \<in> set q" and "\<forall>u \<in> set q. \<not> task_lt u t" and "mset q = add_mset t (mset q')"
proof -
  from assms obtain x xs where q: "q = x # xs" and t: "t = pq_min x xs" and q': "q' = remove1 t q"
    by (auto simp: pq_get_def split: list.splits)
  show "t \<in> set q" unfolding q t by (rule pq_min_in)
  then show "mset q = add_mset t (mset q')" unfolding q' by simp
  show "\<forall>u \<in> set q. \<not> task_lt u t" unfolding q t using pq_min_least by blast
qed

lemma pq_get_None: "pq_get q = None \<longleftrightarrow> q = []"
  by (simp add: pq_get_def split: list.splits)

lemma pq_get_Nil: "pq_get [] = None"
  by (simp add: pq_get_def)

lemma pq_drain_mset: "length q \<le> n \<Longrightarrow> mset (pq_drain n q) = mset q"
proof (induction n arbitrary: q)
  case 0 then show ?case by simp
next
  case (Suc n)
  show ?case
  proof (cases "pq_get q")
    case None
    then have "q = []" by (simp add: pq_get_None)
    then show ?thesis by (simp add: pq_get_Nil)
  next
    case (Some p)
    obtain t q' where p: "p = (t, q')" by (cases p)
    from pq_get_Some(3) [OF Some [unfolded p]] have m: "mset q = add_mset t (mset q')" .
    then have "length q = Suc (length q')" by (metis size_mset size_add_mset)
    with Suc.prems have "length q' \<le> n" by simp
    then have "mset (pq_drain n q') = mset q'" by (rule Suc.IH)
    with Some p m show ?thesis by simp
  qed
qed

lemma pq_drain_sorted: "length q \<le> n \<Longrightarrow> sorted_wrt (\<lambda>a b. \<not> task_lt b a) (pq_drain n q)"
proof (induction n arbitrary: q)
  case 0 then show ?case by simp
next
  case (Suc n)
  show ?case
  proof (cases "pq_get q")
    case None then show ?thesis by simp
  next
    case (Some p)
    obtain t q' where p: "p = (t, q')" by (cases p)
    note g = pq_get_Some [OF Some [unfolded p]]
    from g(3) have "length q = Suc (length q')" by (metis size_mset size_add_mset)
    with Suc.prems have len: "length q' \<le> n" by simp
    have "set (pq_drain n q') = set q'" using pq_drain_mset [OF len] by (metis set_mset_mset)
    moreover have "set q' \<subseteq> set q" using g(3) by (metis set_mset_mset set_mset_add_mset_insert subset_insertI)
    ultimately have "\<forall>u \<in> set (pq_drain n q'). \<not> task_lt u t" using g(2) by blast
    with Suc.IH [OF len] Some p show ?thesis by simp
  qed
qed

lemma sorted_exits_first:
  "sorted_wrt (\<lambda>a b. \<not> task_lt b a) xs \<Longrightarrow> xs = filter is_Exit xs @ filter (\<lambda>t. \<not> is_Exit t) xs"
proof (induction xs)
  case Nil show ?case by simp
next
  case (Cons x xs)
  then have IH: "xs = filter is_Exit xs @ filter (\<lambda>t. \<not> is_Exit t) xs" by simp
  show ?case
  proof (cases "is_Exit x")
    case True
    with IH show ?thesis by simp
  next
    case False
    have "\<forall>u \<in> set xs. \<not> is_Exit u"
    proof
      fix u assume u: "u \<in> set xs"
      with Cons.prems have "\<not> task_lt u x" by simp
      moreover have "is_Exit u \<Longrightarrow> task_lt u x"
        using False by (intro task_lt_code) (cases u; cases x; auto simp: code_defs)
      ultimately show "\<not> is_Exit u" by blast
    qed
    then have "filter is_Exit xs = []" by (simp add: filter_empty_conv)
    moreover have "filter (\<lambda>t. \<not> is_Exit t) xs = xs" using \<open>\<forall>u \<in> set xs. \<not> is_Exit u\<close> by (simp add: filter_id_conv)
    ultimately show ?thesis using False by simp
  qed
qed

text \<open>
  Claim C1. The code numbers order the classes as Exit, Suspend, Redraw, Status, Done, and a
  task of a lower class is smaller than any task of a higher one; a Status task for a lower
  line index is smaller than one for a higher index. \<^verbatim>\<open>get\<close> returns a task of the
  queue than which no queued task is smaller, so from a queue that holds an Exit task it
  returns an Exit task. The tasks of a queue are delivered in ascending order, all of them,
  the Exit tasks before every other task.
\<close>

theorem tasks_delivered_by_priority:
  "EXIT < SUSPEND \<and> SUSPEND < REDRAW \<and> REDRAW < STATUS \<and> STATUS < DONE
   \<and> (task_code a < task_code b \<longrightarrow> task_lt a b)
   \<and> (i < j \<longrightarrow> task_lt (Status i x) (Status j y))
   \<and> (\<forall>t q'. pq_get q = Some (t, q') \<longrightarrow>
         t \<in> set q \<and> q' = remove1 t q \<and> (\<forall>u \<in> set q. \<not> task_lt u t))
   \<and> (Exit sg \<in> set q \<longrightarrow> (\<exists>sg'. pq_get q = Some (Exit sg', remove1 (Exit sg') q)))
   \<and> mset (delivery_order q) = mset q
   \<and> sorted_wrt (\<lambda>a b. \<not> task_lt b a) (delivery_order q)
   \<and> delivery_order q = filter is_Exit (delivery_order q) @ filter (\<lambda>t. \<not> is_Exit t) (delivery_order q)"
proof (intro conjI)
  show "EXIT < SUSPEND" "SUSPEND < REDRAW" "REDRAW < STATUS" "STATUS < DONE"
    by (simp_all add: code_defs)
  show "task_code a < task_code b \<longrightarrow> task_lt a b" using task_lt_code by blast
  show "i < j \<longrightarrow> task_lt (Status i x) (Status j y)" by (simp add: task_lt_def code_defs)
  show "\<forall>t q'. pq_get q = Some (t, q') \<longrightarrow>
         t \<in> set q \<and> q' = remove1 t q \<and> (\<forall>u \<in> set q. \<not> task_lt u t)"
  proof (intro allI impI)
    fix t q' assume g: "pq_get q = Some (t, q')"
    then have "q' = remove1 t q" by (auto simp: pq_get_def split: list.splits)
    with pq_get_Some(1,2) [OF g]
    show "t \<in> set q \<and> q' = remove1 t q \<and> (\<forall>u \<in> set q. \<not> task_lt u t)" by simp
  qed
  show "Exit sg \<in> set q \<longrightarrow> (\<exists>sg'. pq_get q = Some (Exit sg', remove1 (Exit sg') q))"
  proof
    assume ex: "Exit sg \<in> set q"
    then obtain x xs where q: "q = x # xs" by (cases q) auto
    let ?t = "pq_min x xs"
    have g: "pq_get q = Some (?t, remove1 ?t q)" by (simp add: pq_get_def q)
    from pq_get_Some(2) [OF g] ex have "\<not> task_lt (Exit sg) ?t" by blast
    then have "\<not> task_code (Exit sg) < task_code ?t" using task_lt_code by blast
    then obtain sg' where "?t = Exit sg'" by (cases ?t) (auto simp: code_defs)
    with g show "\<exists>sg'. pq_get q = Some (Exit sg', remove1 (Exit sg') q)" by auto
  qed
  show "mset (delivery_order q) = mset q" by (simp add: delivery_order_def pq_drain_mset)
  show s: "sorted_wrt (\<lambda>a b. \<not> task_lt b a) (delivery_order q)"
    by (simp add: delivery_order_def pq_drain_sorted)
  show "delivery_order q = filter is_Exit (delivery_order q) @ filter (\<lambda>t. \<not> is_Exit t) (delivery_order q)"
    using s by (rule sorted_exits_first)
qed

theorem tasks_delivered_by_priority_witness:
  "task_code (Exit 15) < task_code (Status 0 ''x'') \<and> task_lt (Exit 15) (Status 0 ''x'')
   \<and> (0::nat) < 1 \<and> task_lt (Status 0 ''z'') (Status 1 ''a'')
   \<and> Exit 15 \<in> set q0
   \<and> pq_get q0 = Some (Exit 15, [Status 1 ''b'', Redraw, Suspend 20, Status 0 ''a'', Done True])
   \<and> delivery_order q0 = [Exit 15, Suspend 20, Redraw, Status 0 ''a'', Status 1 ''b'', Done True]"
  using tasks_delivered_by_priority [of "Exit 15" "Status 0 ''x''" 0 1 "''z''" "''a''" q0 15]
  by (simp add: q0_def pq_get_def task_lt_def code_defs delivery_order_def)

section \<open>One \<open>Done(True)\<close> per pause cycle\<close>

lemma report_status_registered:
  "line_indexes s tid = Some i \<Longrightarrow> report_status tid text s = Inr (s\<lparr>tasks := tasks s @ [Status i text]\<rparr>)"
  by (simp add: report_status_def pq_put_def)

lemma pause_step:
  assumes "\<not> pause_event s" "stop_event s" "line_indexes s tid = Some i"
  shows "maybe_pause_or_stop tid s =
    Blocked (s\<lparr>active_work_threads := active_work_threads s - 1,
              tasks := tasks s @ (if active_work_threads s = 1 then [Done True] else []) @ [Status i NUL]\<rparr>)"
  using assms by (simp add: maybe_pause_or_stop_def report_status_def pq_put_def Let_def)

lemma reach_checkpoint_pause:
  assumes "\<not> pause_event s" "stop_event s" "\<forall>tid \<in> set us. line_indexes s tid \<noteq> None"
    "int (length us) \<le> active_work_threads s"
  shows "active_work_threads (reach_checkpoint us s) = active_work_threads s - int (length us)
       \<and> count_list (tasks (reach_checkpoint us s)) (Done True)
           = count_list (tasks s) (Done True)
             + (if us \<noteq> [] \<and> active_work_threads s = int (length us) then 1 else 0)
       \<and> \<not> pause_event (reach_checkpoint us s) \<and> stop_event (reach_checkpoint us s)
       \<and> line_indexes (reach_checkpoint us s) = line_indexes s"
  using assms
proof (induction us arbitrary: s)
  case Nil
  then show ?case by simp
next
  case (Cons u us)
  from Cons.prems obtain i where i: "line_indexes s u = Some i" by auto
  let ?s' = "s\<lparr>active_work_threads := active_work_threads s - 1,
              tasks := tasks s @ (if active_work_threads s = 1 then [Done True] else []) @ [Status i NUL]\<rparr>"
  have st: "maybe_pause_or_stop u s = Blocked ?s'"
    using Cons.prems i by (intro pause_step) auto
  have r: "reach_checkpoint (u # us) s = reach_checkpoint us ?s'" by (simp add: st)
  have IH: "active_work_threads (reach_checkpoint us ?s') = active_work_threads ?s' - int (length us)
       \<and> count_list (tasks (reach_checkpoint us ?s')) (Done True)
           = count_list (tasks ?s') (Done True)
             + (if us \<noteq> [] \<and> active_work_threads ?s' = int (length us) then 1 else 0)
       \<and> \<not> pause_event (reach_checkpoint us ?s') \<and> stop_event (reach_checkpoint us ?s')
       \<and> line_indexes (reach_checkpoint us ?s') = line_indexes ?s'"
    using Cons.prems by (intro Cons.IH) auto
  show ?case unfolding r using IH Cons.prems(4) by (auto split: if_splits)
qed

text \<open>
  Claim C2. A pause is requested and no stop; the workers \<open>ws\<close> are the active ones, all
  registered, and they reach the checkpoint one after the other, in any order. After \<open>k\<close>
  of them have done so the active count is \<open>N - k\<close>, and the queue holds one more
  \<open>Done(True)\<close> than at the start exactly when the active count is 0, that is when the
  last of the \<open>N\<close> workers has arrived, and none more before; every worker blocks.
\<close>

theorem one_done_per_pause_cycle:
  assumes "\<not> pause_event s" and "stop_event s" and "distinct ws" and "ws \<noteq> []"
    and "\<forall>tid \<in> set ws. line_indexes s tid \<noteq> None"
    and "active_work_threads s = int (length ws)"
    and "k \<le> length ws"
  shows "active_work_threads (reach_checkpoint (take k ws) s) = int (length ws) - int k
     \<and> count_list (tasks (reach_checkpoint (take k ws) s)) (Done True)
         = count_list (tasks s) (Done True)
           + (if active_work_threads (reach_checkpoint (take k ws) s) = 0 then 1 else 0)
     \<and> count_list (tasks (reach_checkpoint (take k ws) s)) (Done True)
         = count_list (tasks s) (Done True) + (if k = length ws then 1 else 0)
     \<and> (k < length ws \<longrightarrow>
          is_Blocked (maybe_pause_or_stop (ws ! k) (reach_checkpoint (take k ws) s)))"
proof -
  let ?us = "take k ws"
  let ?sk = "reach_checkpoint ?us s"
  have len: "length ?us = k" using assms(7) by simp
  have reg: "\<forall>tid \<in> set ?us. line_indexes s tid \<noteq> None"
    using assms(5) by (meson in_set_takeD)
  have le: "int (length ?us) \<le> active_work_threads s" using assms(6,7) by simp
  note r = reach_checkpoint_pause [OF assms(1,2) reg le]
  from r have act: "active_work_threads ?sk = int (length ws) - int k"
    using assms(6) len by simp
  from r have cnt: "count_list (tasks ?sk) (Done True)
      = count_list (tasks s) (Done True) + (if k = length ws then 1 else 0)"
    using assms(4,6,7) len by (auto split: if_splits)
  have blocked: "is_Blocked (maybe_pause_or_stop (ws ! k) ?sk)" if "k < length ws"
  proof -
    from that assms(5) r obtain i where "line_indexes ?sk (ws ! k) = Some i" by force
    with r pause_step [of ?sk "ws ! k" i] show ?thesis by simp
  qed
  from act cnt blocked assms(7) show ?thesis by auto
qed

theorem one_done_per_pause_cycle_witness:
  "\<not> pause_event paused3 \<and> stop_event paused3 \<and> distinct [11, 10, 12 :: nat]
   \<and> [11, 10, 12 :: nat] \<noteq> []
   \<and> (\<forall>tid \<in> set [11, 10, 12]. line_indexes paused3 tid \<noteq> None)
   \<and> active_work_threads paused3 = int (length [11, 10, 12 :: nat])
   \<and> (3 :: nat) \<le> length [11, 10, 12 :: nat]
   \<and> active_work_threads (reach_checkpoint (take 3 [11, 10, 12]) paused3) = 0
   \<and> count_list (tasks (reach_checkpoint (take 3 [11, 10, 12]) paused3)) (Done True) = 1
   \<and> tasks (reach_checkpoint [11, 10, 12] paused3)
       = [Status 1 NUL, Status 0 NUL, Done True, Status 2 NUL]"
  using one_done_per_pause_cycle [of paused3 "[11, 10, 12]" 3]
  by (simp add: paused3_def init_monitor_def maybe_pause_or_stop_def report_status_def
      pq_put_def Let_def)

section \<open>Line indexes of the workers\<close>

lemma find_free_index_spec:
  "find_free_index used i |\<notin>| used \<and> i \<le> find_free_index used i
     \<and> (\<forall>j. i \<le> j \<and> j < find_free_index used i \<longrightarrow> j |\<in>| used)"
proof (induction used i rule: find_free_index.induct)
  case (1 used i)
  show ?case
  proof (cases "i |\<notin>| used")
    case True
    then show ?thesis by (auto simp: find_free_index.simps [of used i])
  next
    case False
    with "1.IH" have IH: "find_free_index used (i + 1) |\<notin>| used \<and> i + 1 \<le> find_free_index used (i + 1)
       \<and> (\<forall>j. i + 1 \<le> j \<and> j < find_free_index used (i + 1) \<longrightarrow> j |\<in>| used)" by simp
    have eq: "find_free_index used i = find_free_index used (i + 1)"
      using False by (simp add: find_free_index.simps [of used i])
    have "j |\<in>| used" if "i \<le> j" "j < find_free_index used (i + 1)" for j
    proof (cases "j = i")
      case True with False show ?thesis by simp
    next
      case False with that IH show ?thesis by simp
    qed
    with IH show ?thesis unfolding eq by auto
  qed
qed

lemma work_thread_enter_tables:
  "line_indexes (work_thread_enter th s)
     = (line_indexes s)(ident th \<mapsto> find_free_index (line_indexes_used s) 0)"
  "line_indexes_used (work_thread_enter th s)
     = finsert (find_free_index (line_indexes_used s) 0) (line_indexes_used s)"
  by (simp_all add: work_thread_enter_def Let_def)

lemma work_thread_except_tables:
  "line_indexes (snd (work_thread_except th r s)) = line_indexes s"
  "line_indexes_used (snd (work_thread_except th r s)) = line_indexes_used s"
  by (auto simp: work_thread_except_def report_status_def Let_def split: option.splits sum.splits)

lemma work_thread_exit_tables:
  assumes "line_indexes s (ident th) = Some i" and "i |\<in>| line_indexes_used s"
  shows "line_indexes (snd (work_thread_exit th r s)) = (line_indexes s)(ident th := None)"
    and "line_indexes_used (snd (work_thread_exit th r s)) = line_indexes_used s |-| {|i|}"
proof -
  obtain p s1 where w: "work_thread_except th r s = (p, s1)" by (cases "work_thread_except th r s")
  from work_thread_except_tables [of th r s] w
  have t: "line_indexes s1 = line_indexes s" "line_indexes_used s1 = line_indexes_used s" by simp_all
  with assms show "line_indexes (snd (work_thread_exit th r s)) = (line_indexes s)(ident th := None)"
    and "line_indexes_used (snd (work_thread_exit th r s)) = line_indexes_used s |-| {|i|}"
    by (simp_all add: work_thread_exit_def w work_thread_finally_def Let_def)
qed

lemma checkpoint_tables:
  "line_indexes (checkpoint_state (maybe_pause_or_stop tid s)) = line_indexes s"
  "line_indexes_used (checkpoint_state (maybe_pause_or_stop tid s)) = line_indexes_used s"
  by (auto simp: maybe_pause_or_stop_def report_status_def Let_def split: option.splits sum.splits)

lemma index_inv_unique:
  "index_inv s \<Longrightarrow> line_indexes s t1 = Some i \<Longrightarrow> line_indexes s t2 = Some i \<Longrightarrow> t1 = t2"
  unfolding index_inv_def by blast

lemma index_inv_used:
  "index_inv s \<Longrightarrow> i |\<in>| line_indexes_used s \<longleftrightarrow> (\<exists>t. line_indexes s t = Some i)"
  unfolding index_inv_def by blast

lemma index_inv_enter:
  assumes inv: "index_inv s" and fresh: "line_indexes s (ident th) = None"
  shows "index_inv (work_thread_enter th s)"
proof -
  let ?i = "find_free_index (line_indexes_used s) 0"
  let ?li = "(line_indexes s)(ident th \<mapsto> ?i)"
  have free: "?i |\<notin>| line_indexes_used s" using find_free_index_spec by blast
  with inv have nobody: "line_indexes s t \<noteq> Some ?i" for t
    using index_inv_used by blast
  show ?thesis
    unfolding index_inv_def work_thread_enter_tables
  proof (intro conjI allI impI)
    fix t1 t2 i
    assume a: "?li t1 = Some i \<and> ?li t2 = Some i"
    show "t1 = t2"
    proof (cases "t1 = ident th")
      case True
      with a have "i = ?i" by simp
      with a nobody [of t2] have "t2 = ident th" by (cases "t2 = ident th") simp_all
      with True show ?thesis by simp
    next
      case False
      with a have 1: "line_indexes s t1 = Some i" by simp
      with nobody [of t1] have "i \<noteq> ?i" by auto
      with a have "t2 \<noteq> ident th" by auto
      with a have "line_indexes s t2 = Some i" by simp
      with inv 1 show ?thesis by (rule index_inv_unique)
    qed
  next
    fix i
    show "i |\<in>| finsert ?i (line_indexes_used s) \<longleftrightarrow> (\<exists>t. ?li t = Some i)"
    proof
      assume "i |\<in>| finsert ?i (line_indexes_used s)"
      then consider "i = ?i" | "i |\<in>| line_indexes_used s" by auto
      then show "\<exists>t. ?li t = Some i"
      proof cases
        case 1
        then have "?li (ident th) = Some i" by simp
        then show ?thesis ..
      next
        case 2
        with inv obtain t where t: "line_indexes s t = Some i" using index_inv_used by blast
        with fresh have "t \<noteq> ident th" by auto
        with t have "?li t = Some i" by simp
        then show ?thesis ..
      qed
    next
      assume "\<exists>t. ?li t = Some i"
      then obtain t where t: "?li t = Some i" ..
      show "i |\<in>| finsert ?i (line_indexes_used s)"
      proof (cases "t = ident th")
        case True
        with t show ?thesis by simp
      next
        case False
        with t have "line_indexes s t = Some i" by simp
        with inv have "i |\<in>| line_indexes_used s" using index_inv_used by blast
        then show ?thesis by simp
      qed
    qed
  qed
qed

lemma index_inv_leave:
  assumes inv: "index_inv s" and own: "line_indexes s (ident th) = Some i"
  shows "index_inv (snd (work_thread_exit th r s))"
proof -
  let ?li = "(line_indexes s)(ident th := None)"
  from inv own have used: "i |\<in>| line_indexes_used s" using index_inv_used by blast
  show ?thesis
    unfolding index_inv_def work_thread_exit_tables [OF own used]
  proof (intro conjI allI impI)
    fix t1 t2 j
    assume "?li t1 = Some j \<and> ?li t2 = Some j"
    then have "line_indexes s t1 = Some j" "line_indexes s t2 = Some j"
      by (auto split: if_splits)
    with inv show "t1 = t2" by (rule index_inv_unique)
  next
    fix j
    show "j |\<in>| line_indexes_used s |-| {|i|} \<longleftrightarrow> (\<exists>t. ?li t = Some j)"
    proof
      assume "j |\<in>| line_indexes_used s |-| {|i|}"
      then have "j |\<in>| line_indexes_used s" and ne: "j \<noteq> i" by auto
      with inv obtain t where t: "line_indexes s t = Some j" using index_inv_used by blast
      with ne own have "t \<noteq> ident th" by auto
      with t have "?li t = Some j" by simp
      then show "\<exists>t. ?li t = Some j" ..
    next
      assume "\<exists>t. ?li t = Some j"
      then obtain t where t: "?li t = Some j" ..
      then have tn: "t \<noteq> ident th" and lt: "line_indexes s t = Some j"
        by (auto split: if_splits)
      from inv lt have "j |\<in>| line_indexes_used s" using index_inv_used by blast
      moreover have "j \<noteq> i"
      proof
        assume "j = i"
        with lt own inv have "t = ident th" using index_inv_unique by blast
        with tn show False by simp
      qed
      ultimately show "j |\<in>| line_indexes_used s |-| {|i|}" by simp
    qed
  qed
qed

lemma index_inv_event:
  assumes "index_inv s" and "apply_event e s = Some s'"
  shows "index_inv s'"
proof (cases e)
  case (Enter th)
  with assms show ?thesis by (auto split: if_splits intro: index_inv_enter)
next
  case (Leave th r)
  with assms show ?thesis by (auto split: if_splits intro: index_inv_leave)
next
  case (Report tid msg)
  with assms show ?thesis
    by (auto simp: report_status_def index_inv_def split: option.splits)
next
  case (Checkpoint tid)
  with assms show ?thesis by (auto simp: index_inv_def checkpoint_tables)
next
  case Resume
  with assms show ?thesis by (auto simp: index_inv_def maybe_pause_or_stop_resume_def)
qed

lemma index_inv_run: "index_inv s \<Longrightarrow> run_events evs s = Some s' \<Longrightarrow> index_inv s'"
proof (induction evs arbitrary: s)
  case Nil then show ?case by simp
next
  case (Cons e evs)
  from Cons.prems(2) obtain s1 where e: "apply_event e s = Some s1" and r: "run_events evs s1 = Some s'"
    by (auto split: option.splits)
  from Cons.prems(1) e have "index_inv s1" by (rule index_inv_event)
  then show ?case using r by (rule Cons.IH)
qed

lemma event_keeps_index:
  assumes inv: "index_inv s" and ev: "apply_event e s = Some s'" and own: "line_indexes s t = Some i"
    and other: "\<forall>th r. e = Leave th r \<longrightarrow> ident th \<noteq> t"
  shows "line_indexes s' t = Some i \<and> i |\<in>| line_indexes_used s'"
proof -
  from inv own have used: "i |\<in>| line_indexes_used s" using index_inv_used by blast
  show ?thesis
  proof (cases e)
    case (Enter th)
    with ev own used show ?thesis by (auto simp: work_thread_enter_tables split: if_splits)
  next
    case (Leave th r)
    with ev obtain j where j: "line_indexes s (ident th) = Some j" by (auto split: if_splits)
    with inv have uj: "j |\<in>| line_indexes_used s" using index_inv_used by blast
    from Leave other have ne: "ident th \<noteq> t" by simp
    have "j \<noteq> i"
    proof
      assume "j = i"
      with j own inv have "ident th = t" using index_inv_unique by blast
      with ne show False by simp
    qed
    with Leave ev own used ne j show ?thesis
      by (auto simp: work_thread_exit_tables [OF j uj] split: if_splits)
  next
    case (Report tid msg)
    with ev own used show ?thesis by (auto simp: report_status_def split: option.splits)
  next
    case (Checkpoint tid)
    with ev own used show ?thesis by (auto simp: checkpoint_tables)
  next
    case Resume
    with ev own used show ?thesis by (auto simp: maybe_pause_or_stop_resume_def)
  qed
qed

end
